theory Spec2Isabelle
  imports Main "HOL-Library.Multiset"
begin

chapter \<open>CuevanaScraper: the stream-link pipeline of \<open>cuavanaslow.py\<close>\<close>

text \<open>
  A shallow embedding of the functions of \<open>src/cuavanaslow.py\<close>. Python strings are
  modelled as \<open>string\<close> (lists of 8-bit characters); the URLs and labels the program handles
  are ASCII. Everything the program does to the browser, the player process, the clock and the
  file system is an explicit operation on a world that is passed through and returned.
\<close>

section \<open>Definitions\<close>

subsection \<open>Python string operations\<close>

text \<open>
  \<open>str.lower()\<close>: the letters \<open>A\<close> .. \<open>Z\<close> (codes 65 .. 90) move to \<open>a\<close> .. \<open>z\<close>
  (add 32); every other 8-bit character is left as it is. No character outside ASCII lower-cases
  to a letter of \<open>index\<close> or \<open>master\<close> that could complete one of these words,
  so the containment tests below agree with Python on every input. On the titles of the batch
  run the function is Python's for ASCII titles; the property proved there uses nothing of
  \<open>lower\<close> but that it is one function, applied to both sides of the comparison.
\<close>

definition lower_char :: "char \<Rightarrow> char" where
  "lower_char c =
     (let n = (of_char c :: nat) in if 65 \<le> n \<and> n \<le> 90 then char_of (n + 32) else c)"

definition lower :: "string \<Rightarrow> string" where
  "lower s = map lower_char s"

text \<open>\<open>s.startswith(p)\<close>.\<close>

fun startswith :: "string \<Rightarrow> string \<Rightarrow> bool" where
  "startswith s [] = True"
| "startswith [] (p # ps) = False"
| "startswith (c # cs) (p # ps) = (c = p \<and> startswith cs ps)"

text \<open>\<open>sub in s\<close>: \<open>sub\<close> occurs in \<open>s\<close> as a contiguous substring.\<close>

fun py_in :: "string \<Rightarrow> string \<Rightarrow> bool" where
  "py_in sub [] = (sub = [])"
| "py_in sub (c # cs) = (startswith (c # cs) sub \<or> py_in sub cs)"

subsection \<open>Link prioritizer: \<open>get_best_m3u8_link\<close> (lines 530-550)\<close>

text \<open>The two tests the list comprehensions of \<open>get_best_m3u8_link\<close> apply to a link.\<close>

definition has_index :: "string \<Rightarrow> bool" where
  "has_index link = py_in ''index'' (lower link)"

definition is_master :: "string \<Rightarrow> bool" where
  "is_master link = py_in ''master'' (lower link)"

text \<open>
  \<open>return priority_links[0]\<close> and its two siblings read the first element of a list the
  line before has found non-empty; the \<open>case\<close> on the list is that test and that read.
\<close>

definition get_best_m3u8_link :: "string list \<Rightarrow> string option" where
  "get_best_m3u8_link video_links =
     (if video_links = [] then None
      else
        (case filter (\<lambda>link. has_index link \<and> \<not> is_master link) video_links of
           p # _ \<Rightarrow> Some p
         | [] \<Rightarrow>
            (case filter (\<lambda>link. \<not> is_master link) video_links of
               n # _ \<Rightarrow> Some n
             | [] \<Rightarrow> (case video_links of v # _ \<Rightarrow> Some v | [] \<Rightarrow> None))))"

subsection \<open>The outside world\<close>

text \<open>
  The browser, the player process, the clock and the file system are outside the program. Each
  call the program makes to them is recorded, in order, in the \<open>trace\<close> of the world; the answer
  to a call is given by the environment \<open>env\<close> as a function of the whole trace up to and
  including that call, so it may depend on the call's arguments and on everything done before.
  The environment is deterministic and otherwise arbitrary.

  The clock \<open>now\<close> counts milliseconds. Every call takes the time the environment says
  (\<open>e_latency\<close>, possibly none), and \<open>time.sleep(n)\<close> takes \<open>n\<close> seconds on top of that:
  the clock never runs backwards and a sleep lasts at least as long as asked.
\<close>

type_synonym elem = nat
type_synonym proc = nat

datatype By = XPATH | CSS_SELECTOR | TAG_NAME

datatype exn = TimeoutException | ElementClickInterceptedException | NameError | ValueError
  | OtherException

text \<open>
  An entry of the browser's performance log, as the program reads it: an entry it cannot parse
  (\<open>json.loads\<close> or a key lookup raises and the entry is skipped), or a message with its
  \<open>method\<close> and, when \<open>params.response.url\<close> is there and is a string, that URL.
\<close>

datatype perf_entry = Unparsable | Message string "string option"

text \<open>
  The log lines of the polling loop, which carry a value no return value carries. The other
  \<open>logging\<close> calls and the \<open>print\<close> calls of the program have no effect on any result
  and are left out of the trace.
\<close>

datatype log_record =
    Redirected_after nat
  | Final_URL string
  | Waiting_for_redirect int
  | No_redirect_after_maximum_wait_time

text \<open>
  The calls. \<open>WaitPresence\<close> and \<open>WaitVisibility\<close> are \<open>WebDriverWait(driver, timeout).until\<close>
  of \<open>presence_of_element_located\<close> and \<open>visibility_of_element_located\<close>, \<open>WaitReadyState\<close>
  the wait for \<open>document.readyState\<close>; \<open>ExecuteClick\<close> is
  \<open>driver.execute_script("arguments[0].click();", element)\<close>, \<open>ExecuteScrollClick\<close> the
  script that scrolls to the element and clicks it, \<open>ExecuteScript\<close> a script without an
  element; \<open>ActionChainsClick\<close> is \<open>ActionChains(driver).move_to_element(e).click().perform()\<close>;
  \<open>Get\<close> is \<open>driver.get\<close>, \<open>CurrentUrl\<close> is \<open>driver.current_url\<close>, \<open>GetLog\<close> is
  \<open>driver.get_log\<close>, \<open>GetText\<close> is \<open>element.text\<close>; \<open>Chrome\<close> is \<open>webdriver.Chrome(options)\<close>
  and \<open>Quit\<close> is \<open>driver.quit()\<close>; \<open>PathExists\<close> and \<open>ExpandUser\<close> are \<open>os.path.exists\<close> and
  \<open>os.path.expanduser\<close>; \<open>Popen\<close>, \<open>Poll\<close> and \<open>Terminate\<close> are \<open>subprocess.Popen([path, link])\<close>,
  \<open>process.poll()\<close> and \<open>process.terminate()\<close>; \<open>ReadLines\<close>, \<open>ReadFile\<close>, \<open>WriteFile\<close> and
  \<open>AppendFile\<close> open a file and read its lines, read it whole, write it or append to it;
  \<open>Shuffle\<close> is \<open>random.shuffle\<close>; \<open>Sleep\<close> and \<open>TimeTime\<close> are \<open>time.sleep\<close> and \<open>time.time\<close>.
\<close>

datatype call =
    WaitPresence By string nat
  | WaitVisibility By string nat
  | ExecuteClick elem
  | ActionChainsClick elem
  | FindElements By string
  | GetAttribute elem string
  | Get string
  | CurrentUrl
  | GetLog string
  | SwitchToFrame elem
  | SwitchToDefaultContent
  | PathExists string
  | ExpandUser string
  | Popen string string
  | Poll proc
  | Terminate proc
  | Input string
  | Chrome
  | SetPageLoadTimeout nat
  | ExecuteCdpCmd string
  | WaitReadyState nat
  | FindElement By string
  | GetText elem
  | ExecuteScript string
  | ExecuteScrollClick elem
  | Quit
  | ReadLines string
  | ReadFile string
  | WriteFile string string
  | AppendFile string string
  | Shuffle "string list"
  | Sleep nat
  | TimeTime
  | Logging log_record

record world =
  trace :: "call list"
  now :: nat

record env =
  e_latency :: "call list \<Rightarrow> nat"
  e_element :: "call list \<Rightarrow> exn + elem"
  e_elements :: "call list \<Rightarrow> exn + elem list"
  e_done :: "call list \<Rightarrow> exn option"
  e_string :: "call list \<Rightarrow> exn + string"
  e_attribute :: "call list \<Rightarrow> exn + string option"
  e_log :: "call list \<Rightarrow> exn + perf_entry list"
  e_bool :: "call list \<Rightarrow> bool"
  e_process :: "call list \<Rightarrow> exn + proc"
  e_poll :: "call list \<Rightarrow> int option"
  e_lines :: "call list \<Rightarrow> exn + string list"

definition cost :: "call \<Rightarrow> nat" where
  "cost c = (case c of Sleep n \<Rightarrow> 1000 * n | _ \<Rightarrow> 0)"

text \<open>A call with no answer the program reads: \<open>time.sleep\<close>, \<open>time.time\<close> (the answer is the clock), a log line.\<close>

definition do_call :: "env \<Rightarrow> call \<Rightarrow> world \<Rightarrow> world" where
  "do_call env c w =
     \<lparr>trace = trace w @ [c], now = now w + cost c + e_latency env (trace w @ [c])\<rparr>"

text \<open>A call answered with an element, or an exception.\<close>

definition call_element :: "env \<Rightarrow> call \<Rightarrow> world \<Rightarrow> (exn + elem) \<times> world" where
  "call_element env c w = (let w' = do_call env c w in (e_element env (trace w'), w'))"


text \<open>A call that returns nothing: \<open>None\<close> when it went through, \<open>Some e\<close> when it raised \<open>e\<close>.\<close>

definition call_done :: "env \<Rightarrow> call \<Rightarrow> world \<Rightarrow> exn option \<times> world" where
  "call_done env c w = (let w' = do_call env c w in (e_done env (trace w'), w'))"

definition call_string :: "env \<Rightarrow> call \<Rightarrow> world \<Rightarrow> (exn + string) \<times> world" where
  "call_string env c w = (let w' = do_call env c w in (e_string env (trace w'), w'))"



text \<open>\<open>os.path.exists\<close> answers true or false and does not raise.\<close>

definition call_bool :: "env \<Rightarrow> call \<Rightarrow> world \<Rightarrow> bool \<times> world" where
  "call_bool env c w = (let w' = do_call env c w in (e_bool env (trace w'), w'))"

definition call_process :: "env \<Rightarrow> call \<Rightarrow> world \<Rightarrow> (exn + proc) \<times> world" where
  "call_process env c w = (let w' = do_call env c w in (e_process env (trace w'), w'))"

text \<open>\<open>process.poll()\<close>: \<open>None\<close> while the process runs, its return code once it has ended.\<close>

definition call_poll :: "env \<Rightarrow> call \<Rightarrow> world \<Rightarrow> int option \<times> world" where
  "call_poll env c w = (let w' = do_call env c w in (e_poll env (trace w'), w'))"


subsection \<open>\<open>wait_for_element\<close> (lines 130-142)\<close>

text \<open>
  Two waits with the same timeout, for presence and then for visibility; the element of the
  first is returned. A \<open>TimeoutException\<close> is logged and raised again, like any other exception.
\<close>

definition wait_for_element :: "env \<Rightarrow> By \<Rightarrow> string \<Rightarrow> nat \<Rightarrow> world \<Rightarrow> (exn + elem) \<times> world" where
  "wait_for_element env how value timeout w =
     (case call_element env (WaitPresence how value timeout) w of
        (Inl e, w1) \<Rightarrow> (Inl e, w1)
      | (Inr element, w1) \<Rightarrow>
          (case call_element env (WaitVisibility how value timeout) w1 of
             (Inl e, w2) \<Rightarrow> (Inl e, w2)
           | (Inr _, w2) \<Rightarrow> (Inr element, w2)))"

subsection \<open>Source option selector: \<open>find_and_click_video_option\<close> (lines 241-302)\<close>

text \<open>
  The two dictionaries of the function, in the order they are written (a Python dictionary
  iterates in insertion order): flag name and XPath of the option's label.
\<close>

definition hd_options :: "(string \<times> string) list" where
  "hd_options =
     [(''vidhide_hd'', ''//span[contains(text(), 'vidhide - HD')]''),
      (''filemoon_hd'', ''//span[contains(text(), 'filemoon - HD')]''),
      (''voesx_hd'', ''//span[contains(text(), 'voesx - HD')]'')]"

definition cam_options :: "(string \<times> string) list" where
  "cam_options =
     [(''vidhide_cam'', ''//span[contains(text(), 'vidhide - CAM')]''),
      (''filemoon_cam'', ''//span[contains(text(), 'filemoon - CAM')]''),
      (''voesx_cam'', ''//span[contains(text(), 'voesx - CAM')]'')]"

text \<open>
  \<open>source_flags\<close> is a dictionary from flag names to booleans, here the list of its items
  (its keys are distinct). \<open>any(source_flags.values())\<close> and \<open>source_flags.get(flag)\<close>:
\<close>

definition has_flags :: "(string \<times> bool) list \<Rightarrow> bool" where
  "has_flags source_flags = list_ex (\<lambda>v. v) (map snd source_flags)"

definition flag_get :: "(string \<times> bool) list \<Rightarrow> string \<Rightarrow> bool" where
  "flag_get source_flags flag = (map_of source_flags flag = Some True)"

definition options_to_try :: "(string \<times> bool) list \<Rightarrow> (string \<times> string) list" where
  "options_to_try source_flags =
     (if has_flags source_flags then
        map (\<lambda>(flag, xpath). (xpath, ''HD''))
          (filter (\<lambda>(flag, xpath). flag_get source_flags flag) hd_options)
        @ map (\<lambda>(flag, xpath). (xpath, ''CAM''))
          (filter (\<lambda>(flag, xpath). flag_get source_flags flag) cam_options)
      else
        map (\<lambda>(flag, xpath). (xpath, ''HD'')) hd_options
        @ map (\<lambda>(flag, xpath). (xpath, ''CAM'')) cam_options)"

text \<open>
  The body of the \<open>try\<close> in the loop: wait for the option (20 s), click it by script, sleep 8 s.
  \<open>True\<close> when the \<open>return True, False\<close> is reached, \<open>False\<close> when an exception sent the
  loop to its \<open>continue\<close>.
\<close>

definition click_option :: "env \<Rightarrow> string \<Rightarrow> world \<Rightarrow> bool \<times> world" where
  "click_option env option_xpath w =
     (case wait_for_element env XPATH option_xpath 20 w of
        (Inl e, w1) \<Rightarrow> (False, w1)
      | (Inr video_option, w1) \<Rightarrow>
          (case call_done env (ExecuteClick video_option) w1 of
             (Some e, w2) \<Rightarrow> (False, w2)
           | (None, w2) \<Rightarrow> (True, do_call env (Sleep 8) w2)))"

fun try_options :: "env \<Rightarrow> (string \<times> string) list \<Rightarrow> world \<Rightarrow> (bool \<times> bool) \<times> world" where
  "try_options env [] w = ((False, False), w)"
| "try_options env ((option_xpath, quality) # rest) w =
     (case click_option env option_xpath w of
        (True, w1) \<Rightarrow> ((True, False), w1)
      | (False, w1) \<Rightarrow> try_options env rest w1)"

text \<open>\<open>if source_flags is None: source_flags = {}\<close>.\<close>

definition given_flags :: "(string \<times> bool) list option \<Rightarrow> (string \<times> bool) list" where
  "given_flags source_flags_arg = (case source_flags_arg of None \<Rightarrow> [] | Some flags \<Rightarrow> flags)"

definition find_and_click_video_option ::
  "env \<Rightarrow> (string \<times> bool) list option \<Rightarrow> world \<Rightarrow> (bool \<times> bool) \<times> world" where
  "find_and_click_video_option env source_flags_arg w =
     (let source_flags = given_flags source_flags_arg;
          to_try = options_to_try source_flags
      in if has_flags source_flags \<and> to_try = [] then ((False, False), w)
         else try_options env to_try w)"

text \<open>The option XPaths a trace has waited for, in order: the attempts of the selector.\<close>

fun attempts :: "call list \<Rightarrow> string list" where
  "attempts [] = []"
| "attempts (WaitPresence XPATH x t # cs) = x # attempts cs"
| "attempts (c # cs) = attempts cs"

text \<open>
  The default order in the specification's words: vidhide-HD, filemoon-HD, voesx-HD,
  vidhide-CAM, filemoon-CAM, voesx-CAM, each option by the XPath of its label and its quality;
  and the flag that names each of the six, in the same order.
\<close>

definition spec_default_order :: "(string \<times> string) list" where
  "spec_default_order =
     [(''//span[contains(text(), 'vidhide - HD')]'', ''HD''),
      (''//span[contains(text(), 'filemoon - HD')]'', ''HD''),
      (''//span[contains(text(), 'voesx - HD')]'', ''HD''),
      (''//span[contains(text(), 'vidhide - CAM')]'', ''CAM''),
      (''//span[contains(text(), 'filemoon - CAM')]'', ''CAM''),
      (''//span[contains(text(), 'voesx - CAM')]'', ''CAM'')]"

definition spec_flag_names :: "string list" where
  "spec_flag_names =
     [''vidhide_hd'', ''filemoon_hd'', ''voesx_hd'', ''vidhide_cam'', ''filemoon_cam'', ''voesx_cam'']"

text \<open>The dictionary \<open>main\<close> builds when only \<open>--filemoon-hd\<close> is given.\<close>

definition filemoon_hd_only :: "(string \<times> bool) list" where
  "filemoon_hd_only =
     [(''vidhide_hd'', False), (''filemoon_hd'', True), (''voesx_hd'', False),
      (''vidhide_cam'', False), (''filemoon_cam'', False), (''voesx_cam'', False)]"

subsection \<open>Worlds to run the program in\<close>

text \<open>A world before any call, and an environment in which nothing is on the page.\<close>

definition start_world :: world where
  "start_world = \<lparr>trace = [], now = 0\<rparr>"

definition quiet_env :: env where
  "quiet_env =
     \<lparr>e_latency = (\<lambda>tr. 0),
      e_element = (\<lambda>tr. Inl TimeoutException),
      e_elements = (\<lambda>tr. Inr []),
      e_done = (\<lambda>tr. None),
      e_string = (\<lambda>tr. Inr []),
      e_attribute = (\<lambda>tr. Inr None),
      e_log = (\<lambda>tr. Inr []),
      e_bool = (\<lambda>tr. False),
      e_process = (\<lambda>tr. Inl OtherException),
      e_poll = (\<lambda>tr. None),
      e_lines = (\<lambda>tr. Inr [])\<rparr>"

text \<open>A page on which exactly the options with the given XPaths are present and visible.\<close>

definition shown_on_page :: "string list \<Rightarrow> call list \<Rightarrow> exn + elem" where
  "shown_on_page shown tr =
     (case last tr of
        WaitPresence how x t \<Rightarrow> if x \<in> set shown then Inr 1 else Inl TimeoutException
      | WaitVisibility how x t \<Rightarrow> if x \<in> set shown then Inr 1 else Inl TimeoutException
      | _ \<Rightarrow> Inl OtherException)"

definition page_env :: "string list \<Rightarrow> env" where
  "page_env shown = quiet_env\<lparr>e_element := shown_on_page shown\<rparr>"

subsection \<open>Embed/redirect resolver: \<open>check_and_handle_iframe\<close> (lines 304-421)\<close>














text \<open>The world after a sequence of calls.\<close>

definition run_calls :: "env \<Rightarrow> call list \<Rightarrow> world \<Rightarrow> world" where
  "run_calls env cs w = fold (do_call env) cs w"





subsection \<open>Resource harvester: \<open>get_waaw_link\<close> and \<open>find_m3u8_links\<close> (lines 45-128)\<close>









subsection \<open>Playback verifier: \<open>try_play_in_vlc\<close> (lines 450-528)\<close>

text \<open>
  \<open>str.strip()\<close>: white space is removed at both ends. Among the characters up to 255 the
  white space of Python is 9 .. 13, 28 .. 32, 133 and 160.
\<close>

definition is_space :: "char \<Rightarrow> bool" where
  "is_space c =
     (let n = (of_char c :: nat) in (9 \<le> n \<and> n \<le> 13) \<or> (28 \<le> n \<and> n \<le> 32) \<or> n = 133 \<or> n = 160)"

definition strip :: "string \<Rightarrow> string" where
  "strip s = rev (dropWhile is_space (rev (dropWhile is_space s)))"

text \<open>A Windows path from its parts, joined by backslashes (character 92).\<close>

fun win_path :: "string list \<Rightarrow> string" where
  "win_path [] = []"
| "win_path [part] = part"
| "win_path (part # parts) = part @ CHR 0x5C # win_path parts"

definition vlc_default_path :: string where
  "vlc_default_path = win_path [''C:'', ''Program Files'', ''VideoLAN'', ''VLC'', ''vlc.exe'']"

definition vlc_x86_path :: string where
  "vlc_x86_path = win_path [''C:'', ''Program Files (x86)'', ''VideoLAN'', ''VLC'', ''vlc.exe'']"

definition vlc_user_path :: string where
  "vlc_user_path =
     win_path [''~'', ''AppData'', ''Local'', ''Programs'', ''VideoLAN'', ''VLC'', ''vlc.exe'']"

text \<open>
  The search for the player: the default path, then the two alternatives (the list of
  alternatives is built first, which expands the user path). \<open>Inr None\<close> is the \<open>else\<close> of
  the \<open>for\<close> loop: no path exists and the function returns \<open>False\<close>.
\<close>

definition find_vlc :: "env \<Rightarrow> world \<Rightarrow> (exn + string option) \<times> world" where
  "find_vlc env w =
     (case call_bool env (PathExists vlc_default_path) w of
        (True, w1) \<Rightarrow> (Inr (Some vlc_default_path), w1)
      | (False, w1) \<Rightarrow>
          (case call_string env (ExpandUser vlc_user_path) w1 of
             (Inl e, w2) \<Rightarrow> (Inl e, w2)
           | (Inr expanded, w2) \<Rightarrow>
               (case call_bool env (PathExists vlc_x86_path) w2 of
                  (True, w3) \<Rightarrow> (Inr (Some vlc_x86_path), w3)
                | (False, w3) \<Rightarrow>
                    (case call_bool env (PathExists expanded) w3 of
                       (True, w4) \<Rightarrow> (Inr (Some expanded), w4)
                     | (False, w4) \<Rightarrow> (Inr None, w4)))))"

text \<open>
  The \<open>while True\<close> loop that asks the user until the answer, lower-cased and stripped, is
  \<open>yes\<close> or \<open>no\<close>. The user may never give such an answer: then the loop does not return,
  which is the value \<open>None\<close>. An exception of \<open>input\<close> leaves the loop (\<open>Inl\<close>).
\<close>

definition vlc_question :: string where
  "vlc_question = CHR 0x0A # ''Is the video playing correctly in VLC? (yes/no): ''"

partial_function (option) ask_user :: "env \<Rightarrow> world \<Rightarrow> ((exn + string) \<times> world) option" where
  "ask_user env w =
     (case call_string env (Input vlc_question) w of
        (Inl e, w1) \<Rightarrow> Some (Inl e, w1)
      | (Inr answer, w1) \<Rightarrow>
          if strip (lower answer) = ''yes'' \<or> strip (lower answer) = ''no''
          then Some (Inr (strip (lower answer)), w1)
          else ask_user env w1)"

text \<open>
  The body of \<open>for link in filtered_links\<close>: \<open>Return b\<close> is a \<open>return\<close>, \<open>Continue\<close> is a
  \<open>continue\<close> or the \<open>continue\<close> of the exception handler.
\<close>

datatype outcome = Return bool | Continue

definition try_link :: "env \<Rightarrow> bool \<Rightarrow> string \<Rightarrow> world \<Rightarrow> (outcome \<times> world) option" where
  "try_link env auto_test link w =
     (case find_vlc env w of
        (Inl e, w1) \<Rightarrow> Some (Continue, w1)
      | (Inr None, w1) \<Rightarrow> Some (Return False, w1)
      | (Inr (Some vlc_path), w1) \<Rightarrow>
          (case call_process env (Popen vlc_path link) w1 of
             (Inl e, w2) \<Rightarrow> Some (Continue, w2)
           | (Inr process, w2) \<Rightarrow>
               (case call_poll env (Poll process) (do_call env (Sleep 5) w2) of
                  (Some code, w3) \<Rightarrow> Some (Continue, w3)
                | (None, w3) \<Rightarrow>
                    if auto_test then
                      (case call_poll env (Poll process) (do_call env (Sleep 25) w3) of
                         (Some code, w4) \<Rightarrow> Some (Continue, w4)
                       | (None, w4) \<Rightarrow>
                           (case call_done env (Terminate process) w4 of
                              (Some e, w5) \<Rightarrow> Some (Continue, w5)
                            | (None, w5) \<Rightarrow> Some (Return True, do_call env (Sleep 2) w5)))
                    else
                      (case ask_user env w3 of
                         None \<Rightarrow> None
                       | Some (Inl e, w4) \<Rightarrow> Some (Continue, w4)
                       | Some (Inr response, w4) \<Rightarrow>
                           if response = ''yes'' then Some (Return True, w4)
                           else
                             (case call_done env (Terminate process) w4 of
                                (Some e, w5) \<Rightarrow> Some (Continue, w5)
                              | (None, w5) \<Rightarrow> Some (Continue, do_call env (Sleep 2) w5))))))"

fun try_links :: "env \<Rightarrow> bool \<Rightarrow> string list \<Rightarrow> world \<Rightarrow> (bool \<times> world) option" where
  "try_links env auto_test [] w = Some (False, w)"
| "try_links env auto_test (link # rest) w =
     (case try_link env auto_test link w of
        None \<Rightarrow> None
      | Some (Return b, w1) \<Rightarrow> Some (b, w1)
      | Some (Continue, w1) \<Rightarrow> try_links env auto_test rest w1)"

text \<open>The test of the list comprehension that builds \<open>filtered_links\<close>, negated.\<close>

definition excluded_link :: "string \<Rightarrow> bool" where
  "excluded_link link =
     (py_in ''swiftplayers.com/stream/'' link \<or> py_in ''jonathansociallike.com'' link)"

definition try_play_in_vlc :: "env \<Rightarrow> string list \<Rightarrow> bool \<Rightarrow> world \<Rightarrow> (bool \<times> world) option" where
  "try_play_in_vlc env video_links auto_test w =
     (if video_links = [] then Some (False, w)
      else
        (let filtered_links = filter (\<lambda>link. \<not> excluded_link link) video_links in
         if filtered_links = [] then Some (False, w)
         else try_links env auto_test filtered_links w))"

text \<open>The links a trace has started the player on (\<open>subprocess.Popen\<close>), in order.\<close>

fun spawned :: "call list \<Rightarrow> string list" where
  "spawned [] = []"
| "spawned (Popen path link # cs) = link # spawned cs"
| "spawned (c # cs) = spawned cs"

text \<open>
  A machine with the player at its default path, on which the player keeps running for every
  link.
\<close>

definition player_works_env :: env where
  "player_works_env =
     quiet_env\<lparr>e_bool := (\<lambda>tr. True), e_process := (\<lambda>tr. Inr 1), e_poll := (\<lambda>tr. None)\<rparr>"

subsection \<open>Manifest-entry formatter: \<open>format_roku_xml\<close> (lines 590-636)\<close>

text \<open>\<open>info.split()\<close>: the maximal runs of characters that are not white space.\<close>

fun split_from :: "string \<Rightarrow> string \<Rightarrow> string list" where
  "split_from [] word = (if word = [] then [] else [word])"
| "split_from (c # cs) word =
     (if is_space c then (if word = [] then split_from cs [] else word # split_from cs [])
      else split_from cs (word @ [c]))"

definition py_split :: "string \<Rightarrow> string list" where
  "py_split s = split_from s []"

text \<open>\<open>sep.join(parts)\<close>.\<close>

fun join :: "string \<Rightarrow> string list \<Rightarrow> string" where
  "join sep [] = []"
| "join sep [part] = part"
| "join sep (part # parts) = part @ sep @ join sep parts"

text \<open>
  \<open>s.replace(old, new)\<close> for a non-empty \<open>old\<close>, as in both calls of the program: the
  occurrences of \<open>old\<close> are replaced from left to right and do not overlap.
\<close>

function py_replace :: "string \<Rightarrow> string \<Rightarrow> string \<Rightarrow> string" where
  "py_replace old new [] = []"
| "py_replace old new (c # cs) =
     (if old \<noteq> [] \<and> startswith (c # cs) old
      then new @ py_replace old new (drop (length old) (c # cs))
      else c # py_replace old new cs)"
  by pat_completeness auto
termination
  by (relation "measure (\<lambda>(old, new, s). length s)") auto

text \<open>
  The dictionary \<open>get_movie_details\<close> returns. \<open>image_url\<close> comes from \<open>get_attribute\<close> and
  may be Python's \<open>None\<close>, which an f-string prints as \<open>None\<close>.
\<close>

record movie_details =
  title :: string
  image_url :: "string option"
  description :: string
  info :: string
  genres :: "string list"
  actors :: "string list"

text \<open>
  \<open>movie_details['title'].strip().replace('""', '').replace('"', '')\<close>, the same for the
  description.
\<close>

definition clean_text :: "string \<Rightarrow> string" where
  "clean_text s = py_replace ''\"'' [] (py_replace ''\"\"'' [] (strip s))"

text \<open>The f-string of the entry, line by line.\<close>

definition roku_item ::
  "string \<Rightarrow> string \<Rightarrow> string \<Rightarrow> string \<Rightarrow> string \<Rightarrow> string \<Rightarrow> string \<Rightarrow> string" where
  "roku_item title_value description_value poster video_url genre_text year runtime =
     join [CHR 0x0A]
       [''   <item'',
        ''           title=\"'' @ title_value @ ''\"'',
        ''           description=\"'' @ description_value @ ''\"'',
        ''           hdposterurl=\"'' @ poster @ ''\"'',
        ''           streamformat=\"hls\"'',
        ''           url=\"'' @ video_url @ ''\">'',
        [],
        ''      <genre>'' @ genre_text @ ''</genre>'',
        ''      <year>'' @ year @ ''</year>'',
        ''      <runtime>'' @ runtime @ ''</runtime>'',
        [],
        ''      <subtitle language=\"eng\" description=\"English\" url=\"\"/>'',
        ''      <subtitle language=\"spa\" description=\"Spanish\" url=\"\"/>'',
        ''   </item>'']"

text \<open>
  The loop that looks for the first link the player can play, each link verified on its own
  in automated mode. \<open>video_url\<close> starts as the empty string.
\<close>

fun first_working_url :: "env \<Rightarrow> string list \<Rightarrow> world \<Rightarrow> (string \<times> world) option" where
  "first_working_url env [] w = Some ([], w)"
| "first_working_url env (link # rest) w =
     (case try_play_in_vlc env [link] True w of
        None \<Rightarrow> None
      | Some (True, w1) \<Rightarrow> Some (link, w1)
      | Some (False, w1) \<Rightarrow> first_working_url env rest w1)"

definition format_roku_xml ::
  "env \<Rightarrow> movie_details option \<Rightarrow> string list \<Rightarrow> world \<Rightarrow> (string option \<times> world) option" where
  "format_roku_xml env details_arg video_links w =
     (case details_arg of
        None \<Rightarrow> Some (None, w)
      | Some details \<Rightarrow>
          if video_links = [] then Some (None, w)
          else
            (let info_parts = py_split (info details);
                 year = (if length info_parts > 0 then last info_parts else []);
                 runtime = (if length info_parts > 2 then join '' '' (butlast (tl info_parts))
                            else [])
             in case first_working_url env video_links w of
                  None \<Rightarrow> None
                | Some (video_url, w1) \<Rightarrow>
                    if video_url = [] then Some (None, w1)
                    else
                      Some (Some (roku_item (clean_text (title details))
                                (clean_text (description details))
                                (case image_url details of None \<Rightarrow> ''None'' | Some url \<Rightarrow> url)
                                video_url (join '', '' (genres details)) year runtime),
                            w1)))"

text \<open>Details scraped from a page whose title and description hold double quotes.\<close>

definition quoted_details :: movie_details where
  "quoted_details =
     \<lparr>title = '' The \"Best\" Movie '',
      image_url = Some ''https://img.example/p.jpg'',
      description = ''He said \"\"no\"\" and \"yes\".'',
      info = ''7.5 1h 41m 2023'',
      genres = [''Drama'', ''Crime''],
      actors = [''A. Actor'']\<rparr>"

subsection \<open>Batch run: \<open>get_movie_details\<close> and \<open>process_all_movies_for_roku\<close> (lines 144-184, 638-831)\<close>
























section \<open>Properties\<close>

subsection \<open>Strings\<close>

lemma attempts_append: "attempts (xs @ ys) = attempts xs @ attempts ys"
  by (induction xs rule: attempts.induct) auto

lemma startswith_iff: "startswith s p \<longleftrightarrow> (\<exists>rest. s = p @ rest)"
  by (induction s p rule: startswith.induct) auto

lemma py_in_iff: "py_in sub s \<longleftrightarrow> (\<exists>pre post. s = pre @ sub @ post)"
proof (induction s)
  case Nil
  then show ?case by auto
next
  case (Cons c cs)
  show ?case
  proof
    assume "py_in sub (c # cs)"
    then consider "startswith (c # cs) sub" | "py_in sub cs" by auto
    then show "\<exists>pre post. c # cs = pre @ sub @ post"
    proof cases
      case 1
      then obtain rest where "c # cs = sub @ rest" by (auto simp: startswith_iff)
      then have "c # cs = [] @ sub @ rest" by simp
      then show ?thesis by blast
    next
      case 2
      then obtain pre post where "cs = pre @ sub @ post" using Cons.IH by auto
      then have "c # cs = (c # pre) @ sub @ post" by simp
      then show ?thesis by blast
    qed
  next
    assume "\<exists>pre post. c # cs = pre @ sub @ post"
    then obtain pre post where eq: "c # cs = pre @ sub @ post" by blast
    show "py_in sub (c # cs)"
    proof (cases pre)
      case Nil
      then have "startswith (c # cs) sub" using eq by (auto simp: startswith_iff)
      then show ?thesis by simp
    next
      case (Cons a pre')
      then have "cs = pre' @ sub @ post" using eq by simp
      then have "py_in sub cs" using Cons.IH by blast
      then show ?thesis by simp
    qed
  qed
qed

subsection \<open>Link prioritizer\<close>

lemma filter_first:
  "xs = pre @ x # post \<Longrightarrow> P x \<Longrightarrow> \<forall>y\<in>set pre. \<not> P y \<Longrightarrow>
   filter P xs = x # filter P post"
  by simp

lemma filter_none: "\<forall>y\<in>set xs. \<not> P y \<Longrightarrow> filter P xs = []"
  by simp

text \<open>
  Claim C1. The link prioritizer is a function of the candidate sequence alone. Rule 1: the first
  candidate (in sequence order) whose lower-cased form contains \<open>index\<close> and not
  \<open>master\<close> is returned. Rule 2: when there is no such candidate, the first one whose
  lower-cased form does not contain \<open>master\<close> is returned. Rule 3: when every candidate
  contains \<open>master\<close>, the first candidate is returned. The result is none exactly for the
  empty sequence. The three examples of the specification are the last three conjuncts.
\<close>

theorem get_best_m3u8_link_rules:
  "(\<forall>pre x post. video_links = pre @ x # post \<and> has_index x \<and> \<not> is_master x \<and>
        (\<forall>y\<in>set pre. \<not> (has_index y \<and> \<not> is_master y))
      \<longrightarrow> get_best_m3u8_link video_links = Some x)
   \<and> (\<forall>pre x post. (\<forall>y\<in>set video_links. \<not> (has_index y \<and> \<not> is_master y)) \<and>
        video_links = pre @ x # post \<and> \<not> is_master x \<and> (\<forall>y\<in>set pre. is_master y)
      \<longrightarrow> get_best_m3u8_link video_links = Some x)
   \<and> (\<forall>x rest. (\<forall>y\<in>set video_links. is_master y) \<and> video_links = x # rest
      \<longrightarrow> get_best_m3u8_link video_links = Some x)
   \<and> (get_best_m3u8_link video_links = None \<longleftrightarrow> video_links = [])
   \<and> get_best_m3u8_link [''a/master.m3u8'', ''b/index.m3u8'', ''c/index_master.m3u8'']
        = Some ''b/index.m3u8''
   \<and> get_best_m3u8_link [''x/master.m3u8'', ''y/master.m3u8''] = Some ''x/master.m3u8''
   \<and> get_best_m3u8_link [] = None"
proof (intro conjI allI impI)
  fix pre x post
  assume a: "video_links = pre @ x # post \<and> has_index x \<and> \<not> is_master x \<and>
        (\<forall>y\<in>set pre. \<not> (has_index y \<and> \<not> is_master y))"
  then have "filter (\<lambda>link. has_index link \<and> \<not> is_master link) video_links
      = x # filter (\<lambda>link. has_index link \<and> \<not> is_master link) post"
    by (intro filter_first) auto
  then show "get_best_m3u8_link video_links = Some x"
    using a by (simp add: get_best_m3u8_link_def)
next
  fix pre x post
  assume a: "(\<forall>y\<in>set video_links. \<not> (has_index y \<and> \<not> is_master y)) \<and>
        video_links = pre @ x # post \<and> \<not> is_master x \<and> (\<forall>y\<in>set pre. is_master y)"
  then have p: "filter (\<lambda>link. has_index link \<and> \<not> is_master link) video_links = []"
    by (intro filter_none) auto
  from a have "filter (\<lambda>link. \<not> is_master link) video_links
      = x # filter (\<lambda>link. \<not> is_master link) post"
    by (intro filter_first) auto
  then show "get_best_m3u8_link video_links = Some x"
    using a p by (simp add: get_best_m3u8_link_def)
next
  fix x rest
  assume a: "(\<forall>y\<in>set video_links. is_master y) \<and> video_links = x # rest"
  then have p: "filter (\<lambda>link. has_index link \<and> \<not> is_master link) video_links = []"
    by (intro filter_none) auto
  from a have n: "filter (\<lambda>link. \<not> is_master link) video_links = []"
    by (intro filter_none) auto
  show "get_best_m3u8_link video_links = Some x"
    using a p n by (simp add: get_best_m3u8_link_def)
next
  show "get_best_m3u8_link video_links = None \<longleftrightarrow> video_links = []"
    by (auto simp: get_best_m3u8_link_def split: list.splits)
next
  show "get_best_m3u8_link [''a/master.m3u8'', ''b/index.m3u8'', ''c/index_master.m3u8'']
        = Some ''b/index.m3u8''"
    by (simp add: get_best_m3u8_link_def has_index_def is_master_def lower_def lower_char_def)
next
  show "get_best_m3u8_link [''x/master.m3u8'', ''y/master.m3u8''] = Some ''x/master.m3u8''"
    by (simp add: get_best_m3u8_link_def has_index_def is_master_def lower_def lower_char_def)
next
  show "get_best_m3u8_link [] = None"
    by (simp add: get_best_m3u8_link_def)
qed

theorem get_best_m3u8_link_rules_witness:
  "has_index ''B/Index.m3u8'' \<and> \<not> is_master ''B/Index.m3u8''
   \<and> is_master ''a/MASTER.m3u8''
   \<and> get_best_m3u8_link [''a/MASTER.m3u8'', ''B/Index.m3u8'', ''c/index.m3u8'']
        = Some ''B/Index.m3u8''
   \<and> \<not> is_master ''y/plain.m3u8'' \<and> \<not> has_index ''y/plain.m3u8''
   \<and> get_best_m3u8_link [''a/MASTER.m3u8'', ''y/plain.m3u8'', ''z/other.m3u8'']
        = Some ''y/plain.m3u8''
   \<and> is_master ''q/Master_index.m3u8''
   \<and> get_best_m3u8_link [''a/MASTER.m3u8'', ''q/Master_index.m3u8''] = Some ''a/MASTER.m3u8''
   \<and> get_best_m3u8_link [''a/MASTER.m3u8''] \<noteq> None"
proof -
  have b: "has_index ''B/Index.m3u8''" "\<not> is_master ''B/Index.m3u8''"
    by code_simp+
  have a: "is_master ''a/MASTER.m3u8''"
    by code_simp
  have y: "\<not> is_master ''y/plain.m3u8''" "\<not> has_index ''y/plain.m3u8''"
    by (simp_all add: has_index_def is_master_def lower_def lower_char_def)
  have q: "is_master ''q/Master_index.m3u8''"
    by code_simp
  note r1 = get_best_m3u8_link_rules
      [of "[''a/MASTER.m3u8'', ''B/Index.m3u8'', ''c/index.m3u8'']", THEN conjunct1,
       rule_format, of "[''a/MASTER.m3u8'']" "''B/Index.m3u8''" "[''c/index.m3u8'']"]
  have g1: "get_best_m3u8_link [''a/MASTER.m3u8'', ''B/Index.m3u8'', ''c/index.m3u8'']
        = Some ''B/Index.m3u8''"
    using r1 a b by simp
  note r2 = get_best_m3u8_link_rules
      [of "[''a/MASTER.m3u8'', ''y/plain.m3u8'', ''z/other.m3u8'']",
       THEN conjunct2, THEN conjunct1,
       rule_format, of "[''a/MASTER.m3u8'']" "''y/plain.m3u8''" "[''z/other.m3u8'']"]
  have z: "\<not> has_index ''z/other.m3u8''"
    by (simp add: has_index_def lower_def lower_char_def)
  have g2: "get_best_m3u8_link [''a/MASTER.m3u8'', ''y/plain.m3u8'', ''z/other.m3u8'']
        = Some ''y/plain.m3u8''"
    using r2 a y z by simp
  note r3 = get_best_m3u8_link_rules
      [of "[''a/MASTER.m3u8'', ''q/Master_index.m3u8'']",
       THEN conjunct2, THEN conjunct2, THEN conjunct1,
       rule_format, of "''a/MASTER.m3u8''" "[''q/Master_index.m3u8'']"]
  have g3: "get_best_m3u8_link [''a/MASTER.m3u8'', ''q/Master_index.m3u8''] = Some ''a/MASTER.m3u8''"
    using r3 a q by simp
  note r4 = get_best_m3u8_link_rules
      [of "[''a/MASTER.m3u8'']", THEN conjunct2, THEN conjunct2, THEN conjunct2, THEN conjunct1]
  have g4: "get_best_m3u8_link [''a/MASTER.m3u8''] \<noteq> None"
    using r4 by simp
  show ?thesis using a b y q g1 g2 g3 g4 by simp
qed

subsection \<open>Source option selector\<close>

lemma trace_do_call [simp]: "trace (do_call env c w) = trace w @ [c]"
  by (simp add: do_call_def)

lemma attempts_wait_for_element:
  "attempts (trace (snd (wait_for_element env XPATH x t w))) = attempts (trace w) @ [x]"
  by (simp add: wait_for_element_def call_element_def Let_def attempts_append
      split: prod.splits sum.splits)

lemma attempts_click_option:
  "attempts (trace (snd (click_option env x w))) = attempts (trace w) @ [x]"
proof -
  have "attempts (trace (snd (wait_for_element env XPATH x 20 w))) = attempts (trace w) @ [x]"
    by (rule attempts_wait_for_element)
  then show ?thesis
    by (auto simp: click_option_def call_done_def Let_def attempts_append
        split: prod.splits sum.splits option.splits)
qed

lemma try_options_second: "snd (fst (try_options env opts w)) = False"
  by (induction opts arbitrary: w) (auto split: prod.splits bool.splits)

lemma try_options_append:
  "try_options env (pre @ rest) w =
     (if fst (fst (try_options env pre w)) then try_options env pre w
      else try_options env rest (snd (try_options env pre w)))"
  by (induction pre arbitrary: w) (auto split: prod.splits bool.splits)

lemma try_options_fail_attempts:
  "\<not> fst (fst (try_options env opts w)) \<Longrightarrow>
   attempts (trace (snd (try_options env opts w))) = attempts (trace w) @ map fst opts"
proof (induction opts arbitrary: w)
  case Nil
  then show ?case by simp
next
  case (Cons opt opts)
  obtain x q where o: "opt = (x, q)" by (cases opt)
  obtain b w1 where c: "click_option env x w = (b, w1)" by (cases "click_option env x w")
  have a: "attempts (trace w1) = attempts (trace w) @ [x]"
    using attempts_click_option [of env x w] c by simp
  from Cons.prems o c have nb: "\<not> b" by (cases b) auto
  with Cons.prems o c have "\<not> fst (fst (try_options env opts w1))" by simp
  then have "attempts (trace (snd (try_options env opts w1))) = attempts (trace w1) @ map fst opts"
    by (rule Cons.IH)
  then show ?case using o c nb a by simp
qed

lemma try_options_hit:
  "\<not> fst (fst (try_options env pre w)) \<Longrightarrow>
   fst (click_option env x (snd (try_options env pre w))) \<Longrightarrow>
   try_options env (pre @ (x, q) # post) w
     = ((True, False), snd (click_option env x (snd (try_options env pre w))))"
proof -
  assume f: "\<not> fst (fst (try_options env pre w))"
    and c: "fst (click_option env x (snd (try_options env pre w)))"
  obtain b w2 where e: "click_option env x (snd (try_options env pre w)) = (b, w2)"
    by (cases "click_option env x (snd (try_options env pre w))")
  with c have b by simp
  with e f show ?thesis by (simp add: try_options_append)
qed

lemma try_options_success_shape:
  "fst (fst (try_options env opts w)) \<Longrightarrow>
   \<exists>pre x q post. opts = pre @ (x, q) # post
     \<and> \<not> fst (fst (try_options env pre w))
     \<and> fst (click_option env x (snd (try_options env pre w)))
     \<and> snd (try_options env opts w) = snd (click_option env x (snd (try_options env pre w)))"
proof (induction opts arbitrary: w)
  case Nil
  then show ?case by simp
next
  case (Cons opt opts)
  obtain x q where o: "opt = (x, q)" by (cases opt)
  obtain b w1 where c: "click_option env x w = (b, w1)" by (cases "click_option env x w")
  show ?case
  proof (cases b)
    case True
    have "opt # opts = [] @ (x, q) # opts" using o by simp
    moreover have "\<not> fst (fst (try_options env [] w))" by simp
    moreover have "fst (click_option env x (snd (try_options env [] w)))" using c True by simp
    moreover have "snd (try_options env (opt # opts) w)
        = snd (click_option env x (snd (try_options env [] w)))"
      using o c True by simp
    ultimately show ?thesis by blast
  next
    case False
    with Cons.prems o c have "fst (fst (try_options env opts w1))" by simp
    from Cons.IH [OF this] obtain pre x' q' post where
      h: "opts = pre @ (x', q') # post" "\<not> fst (fst (try_options env pre w1))"
         "fst (click_option env x' (snd (try_options env pre w1)))"
         "snd (try_options env opts w1) = snd (click_option env x' (snd (try_options env pre w1)))"
      by blast
    have "opt # opts = (opt # pre) @ (x', q') # post" using h by simp
    moreover have "try_options env (opt # pre) w = try_options env pre w1" using o c False by simp
    moreover have "try_options env (opt # opts) w = try_options env opts w1" using o c False by simp
    ultimately show ?thesis using h by metis
  qed
qed

lemma try_options_attempts_hit:
  "\<not> fst (fst (try_options env pre w)) \<Longrightarrow>
   attempts (trace (snd (click_option env x (snd (try_options env pre w)))))
     = attempts (trace w) @ map fst pre @ [x]"
  by (simp add: attempts_click_option try_options_fail_attempts)

lemma options_to_try_default:
  "\<not> has_flags source_flags \<Longrightarrow> options_to_try source_flags = spec_default_order"
  by (simp add: options_to_try_def hd_options_def cam_options_def spec_default_order_def)

lemma find_and_click_no_flags:
  "\<not> has_flags (given_flags arg) \<Longrightarrow>
   find_and_click_video_option env arg w = try_options env spec_default_order w"
  by (simp add: find_and_click_video_option_def Let_def options_to_try_default)

lemma find_and_click_flags:
  "find_and_click_video_option env arg w = try_options env (options_to_try (given_flags arg)) w"
  by (simp add: find_and_click_video_option_def Let_def)

text \<open>
  Claim C2. When no flag of the configuration is true (the dictionary is absent, empty or all
  false), the attempt list is the six known options in the fixed order vidhide-HD, filemoon-HD,
  voesx-HD, vidhide-CAM, filemoon-CAM, voesx-CAM. When the options before one of them all fail
  and that one is found and clicked, the selector returns success and has attempted exactly
  those options, in order, and none after it. A successful run always has this shape, and a
  failed run has attempted all six.
\<close>

theorem selector_default_order:
  "\<not> has_flags (given_flags source_flags_arg) \<Longrightarrow>
   options_to_try (given_flags source_flags_arg) = spec_default_order
   \<and> (\<forall>pre x q post.
         spec_default_order = pre @ (x, q) # post
         \<and> \<not> fst (fst (try_options env pre w))
         \<and> fst (click_option env x (snd (try_options env pre w)))
       \<longrightarrow> fst (find_and_click_video_option env source_flags_arg w) = (True, False)
           \<and> attempts (trace (snd (find_and_click_video_option env source_flags_arg w)))
               = attempts (trace w) @ map fst pre @ [x])
   \<and> (fst (fst (find_and_click_video_option env source_flags_arg w)) \<longrightarrow>
        (\<exists>pre x q post.
           spec_default_order = pre @ (x, q) # post
           \<and> \<not> fst (fst (try_options env pre w))
           \<and> fst (click_option env x (snd (try_options env pre w)))
           \<and> attempts (trace (snd (find_and_click_video_option env source_flags_arg w)))
               = attempts (trace w) @ map fst pre @ [x]))
   \<and> (\<not> fst (fst (find_and_click_video_option env source_flags_arg w)) \<longrightarrow>
        attempts (trace (snd (find_and_click_video_option env source_flags_arg w)))
          = attempts (trace w) @ map fst spec_default_order)"
proof -
  assume nf: "\<not> has_flags (given_flags source_flags_arg)"
  have run: "find_and_click_video_option env source_flags_arg w
      = try_options env spec_default_order w"
    using nf by (rule find_and_click_no_flags)
  have one: "options_to_try (given_flags source_flags_arg) = spec_default_order"
    using nf by (rule options_to_try_default)
  have two: "\<forall>pre x q post.
         spec_default_order = pre @ (x, q) # post
         \<and> \<not> fst (fst (try_options env pre w))
         \<and> fst (click_option env x (snd (try_options env pre w)))
       \<longrightarrow> fst (find_and_click_video_option env source_flags_arg w) = (True, False)
           \<and> attempts (trace (snd (find_and_click_video_option env source_flags_arg w)))
               = attempts (trace w) @ map fst pre @ [x]"
  proof (intro allI impI)
    fix pre x q post
    assume h: "spec_default_order = pre @ (x, q) # post
         \<and> \<not> fst (fst (try_options env pre w))
         \<and> fst (click_option env x (snd (try_options env pre w)))"
    then have "try_options env (pre @ (x, q) # post) w
        = ((True, False), snd (click_option env x (snd (try_options env pre w))))"
      by (intro try_options_hit) auto
    then have r: "find_and_click_video_option env source_flags_arg w
        = ((True, False), snd (click_option env x (snd (try_options env pre w))))"
      using run h by simp
    show "fst (find_and_click_video_option env source_flags_arg w) = (True, False)
           \<and> attempts (trace (snd (find_and_click_video_option env source_flags_arg w)))
               = attempts (trace w) @ map fst pre @ [x]"
      using r h by (simp add: try_options_attempts_hit)
  qed
  have three: "fst (fst (find_and_click_video_option env source_flags_arg w)) \<longrightarrow>
        (\<exists>pre x q post.
           spec_default_order = pre @ (x, q) # post
           \<and> \<not> fst (fst (try_options env pre w))
           \<and> fst (click_option env x (snd (try_options env pre w)))
           \<and> attempts (trace (snd (find_and_click_video_option env source_flags_arg w)))
               = attempts (trace w) @ map fst pre @ [x])"
  proof
    assume "fst (fst (find_and_click_video_option env source_flags_arg w))"
    then have "fst (fst (try_options env spec_default_order w))" using run by simp
    from try_options_success_shape [OF this] obtain pre x q post where
      h: "spec_default_order = pre @ (x, q) # post"
         "\<not> fst (fst (try_options env pre w))"
         "fst (click_option env x (snd (try_options env pre w)))"
         "snd (try_options env spec_default_order w)
            = snd (click_option env x (snd (try_options env pre w)))"
      by blast
    have "attempts (trace (snd (find_and_click_video_option env source_flags_arg w)))
               = attempts (trace w) @ map fst pre @ [x]"
      using run h by (simp add: try_options_attempts_hit)
    with h show "\<exists>pre x q post.
           spec_default_order = pre @ (x, q) # post
           \<and> \<not> fst (fst (try_options env pre w))
           \<and> fst (click_option env x (snd (try_options env pre w)))
           \<and> attempts (trace (snd (find_and_click_video_option env source_flags_arg w)))
               = attempts (trace w) @ map fst pre @ [x]"
      by blast
  qed
  have four: "\<not> fst (fst (find_and_click_video_option env source_flags_arg w)) \<longrightarrow>
        attempts (trace (snd (find_and_click_video_option env source_flags_arg w)))
          = attempts (trace w) @ map fst spec_default_order"
    using run by (simp add: try_options_fail_attempts)
  from one two three four show ?thesis by blast
qed

lemma page_env_fields [simp]:
  "e_element (page_env shown) = shown_on_page shown"
  "e_done (page_env shown) = (\<lambda>tr. None)"
  "e_latency (page_env shown) = (\<lambda>tr. 0)"
  by (simp_all add: page_env_def quiet_env_def)

lemma click_option_page_absent:
  "x \<notin> set shown \<Longrightarrow> fst (click_option (page_env shown) x w) = False"
  by (simp add: click_option_def wait_for_element_def call_element_def Let_def
      shown_on_page_def)

lemma click_option_page_shown:
  "x \<in> set shown \<Longrightarrow> fst (click_option (page_env shown) x w) = True"
  by (simp add: click_option_def wait_for_element_def call_element_def call_done_def Let_def
      shown_on_page_def)

lemma try_options_page_absent:
  "\<forall>x\<in>set (map fst opts). x \<notin> set shown \<Longrightarrow>
   \<not> fst (fst (try_options (page_env shown) opts w))"
proof (induction opts arbitrary: w)
  case Nil
  then show ?case by simp
next
  case (Cons opt opts)
  obtain x q where o: "opt = (x, q)" by (cases opt)
  obtain b w1 where c: "click_option (page_env shown) x w = (b, w1)"
    by (cases "click_option (page_env shown) x w")
  from Cons.prems o have "x \<notin> set shown" by simp
  then have "\<not> b" using click_option_page_absent [of x shown w] c by simp
  moreover have "\<not> fst (fst (try_options (page_env shown) opts w1))"
    using Cons.prems by (intro Cons.IH) simp
  ultimately show ?case using o c by simp
qed

theorem selector_default_order_witness:
  "\<not> has_flags (given_flags None)
   \<and> fst (find_and_click_video_option
        (page_env [''//span[contains(text(), 'voesx - HD')]'',
                   ''//span[contains(text(), 'filemoon - CAM')]'']) None start_world)
      = (True, False)
   \<and> attempts (trace (snd (find_and_click_video_option
        (page_env [''//span[contains(text(), 'voesx - HD')]'',
                   ''//span[contains(text(), 'filemoon - CAM')]'']) None start_world)))
      = [''//span[contains(text(), 'vidhide - HD')]'',
         ''//span[contains(text(), 'filemoon - HD')]'',
         ''//span[contains(text(), 'voesx - HD')]'']"
proof -
  let ?env = "page_env [''//span[contains(text(), 'voesx - HD')]'',
                   ''//span[contains(text(), 'filemoon - CAM')]'']"
  let ?pre = "[(''//span[contains(text(), 'vidhide - HD')]'', ''HD''),
               (''//span[contains(text(), 'filemoon - HD')]'', ''HD'')]"
  let ?post = "[(''//span[contains(text(), 'vidhide - CAM')]'', ''CAM''),
      (''//span[contains(text(), 'filemoon - CAM')]'', ''CAM''),
      (''//span[contains(text(), 'voesx - CAM')]'', ''CAM'')]"
  have nf: "\<not> has_flags (given_flags None)"
    by (simp add: has_flags_def given_flags_def)
  have split: "spec_default_order = ?pre @ (''//span[contains(text(), 'voesx - HD')]'', ''HD'') # ?post"
    by (simp add: spec_default_order_def)
  have pre: "\<not> fst (fst (try_options ?env ?pre start_world))"
    by (rule try_options_page_absent) simp
  have hit: "fst (click_option ?env ''//span[contains(text(), 'voesx - HD')]''
      (snd (try_options ?env ?pre start_world)))"
    by (simp add: click_option_page_shown)
  have a0: "attempts (trace start_world) = []"
    by (simp add: start_world_def)
  note r = selector_default_order [OF nf, of ?env start_world, THEN conjunct2, THEN conjunct1,
      rule_format, of ?pre "''//span[contains(text(), 'voesx - HD')]''" "''HD''" ?post]
  show ?thesis using nf r split pre hit a0 by simp
qed

text \<open>
  Claim C3. When at least one flag is true, the attempt list is the default list restricted to
  the options whose flag is true, in the same order (HD before CAM, providers in declared
  order). When every attempt of that list fails, the selector returns failure and has attempted
  exactly that list: it does not go on to the other options. With only \<open>filemoon_hd\<close> true
  the list has the single entry filemoon-HD, and when that attempt fails the selector returns
  failure having attempted nothing else.
\<close>

theorem selector_restricted_order:
  "has_flags (given_flags source_flags_arg) \<Longrightarrow>
   options_to_try (given_flags source_flags_arg)
     = map snd (filter (\<lambda>(flag, option). flag_get (given_flags source_flags_arg) flag)
         (zip spec_flag_names spec_default_order))
   \<and> (\<not> fst (fst (try_options env (options_to_try (given_flags source_flags_arg)) w)) \<longrightarrow>
        fst (find_and_click_video_option env source_flags_arg w) = (False, False)
        \<and> attempts (trace (snd (find_and_click_video_option env source_flags_arg w)))
            = attempts (trace w) @ map fst (options_to_try (given_flags source_flags_arg)))
   \<and> (\<not> fst (fst (find_and_click_video_option env source_flags_arg w)) \<longrightarrow>
        attempts (trace (snd (find_and_click_video_option env source_flags_arg w)))
          = attempts (trace w) @ map fst (options_to_try (given_flags source_flags_arg)))
   \<and> options_to_try filemoon_hd_only = [(''//span[contains(text(), 'filemoon - HD')]'', ''HD'')]
   \<and> (\<not> fst (click_option env ''//span[contains(text(), 'filemoon - HD')]'' w) \<longrightarrow>
        fst (find_and_click_video_option env (Some filemoon_hd_only) w) = (False, False)
        \<and> attempts (trace (snd (find_and_click_video_option env (Some filemoon_hd_only) w)))
            = attempts (trace w) @ [''//span[contains(text(), 'filemoon - HD')]''])"
proof -
  assume hf: "has_flags (given_flags source_flags_arg)"
  let ?opts = "options_to_try (given_flags source_flags_arg)"
  have run: "find_and_click_video_option env source_flags_arg w = try_options env ?opts w"
    by (rule find_and_click_flags)
  have one: "?opts = map snd (filter (\<lambda>(flag, option). flag_get (given_flags source_flags_arg) flag)
         (zip spec_flag_names spec_default_order))"
    using hf by (simp add: options_to_try_def hd_options_def cam_options_def
        spec_flag_names_def spec_default_order_def)
  have two: "\<not> fst (fst (try_options env ?opts w)) \<longrightarrow>
        fst (find_and_click_video_option env source_flags_arg w) = (False, False)
        \<and> attempts (trace (snd (find_and_click_video_option env source_flags_arg w)))
            = attempts (trace w) @ map fst ?opts"
    using run try_options_second [of env ?opts w]
    by (simp add: try_options_fail_attempts prod_eq_iff)
  have three: "\<not> fst (fst (find_and_click_video_option env source_flags_arg w)) \<longrightarrow>
        attempts (trace (snd (find_and_click_video_option env source_flags_arg w)))
          = attempts (trace w) @ map fst ?opts"
    using run by (simp add: try_options_fail_attempts)
  have four: "options_to_try filemoon_hd_only
      = [(''//span[contains(text(), 'filemoon - HD')]'', ''HD'')]"
    by (simp add: options_to_try_def filemoon_hd_only_def has_flags_def flag_get_def
        hd_options_def cam_options_def)
  have five: "\<not> fst (click_option env ''//span[contains(text(), 'filemoon - HD')]'' w) \<longrightarrow>
        fst (find_and_click_video_option env (Some filemoon_hd_only) w) = (False, False)
        \<and> attempts (trace (snd (find_and_click_video_option env (Some filemoon_hd_only) w)))
            = attempts (trace w) @ [''//span[contains(text(), 'filemoon - HD')]'']"
  proof
    let ?x = "''//span[contains(text(), 'filemoon - HD')]''"
    assume f: "\<not> fst (click_option env ?x w)"
    obtain b w1 where c: "click_option env ?x w = (b, w1)" by (cases "click_option env ?x w")
    with f have nb: "\<not> b" by simp
    have r: "find_and_click_video_option env (Some filemoon_hd_only) w = ((False, False), w1)"
      using c nb four by (simp add: find_and_click_flags given_flags_def)
    have "attempts (trace w1) = attempts (trace w) @ [?x]"
      using attempts_click_option [of env ?x w] c by simp
    with r show "fst (find_and_click_video_option env (Some filemoon_hd_only) w) = (False, False)
        \<and> attempts (trace (snd (find_and_click_video_option env (Some filemoon_hd_only) w)))
            = attempts (trace w) @ [?x]"
      by simp
  qed
  from one two three four five show ?thesis by blast
qed

theorem selector_restricted_order_witness:
  "has_flags (given_flags (Some filemoon_hd_only))
   \<and> options_to_try (given_flags (Some filemoon_hd_only))
       = [(''//span[contains(text(), 'filemoon - HD')]'', ''HD'')]
   \<and> \<not> fst (click_option (page_env [''//span[contains(text(), 'vidhide - HD')]''])
          ''//span[contains(text(), 'filemoon - HD')]'' start_world)
   \<and> fst (find_and_click_video_option (page_env [''//span[contains(text(), 'vidhide - HD')]''])
        (Some filemoon_hd_only) start_world) = (False, False)
   \<and> attempts (trace (snd (find_and_click_video_option
        (page_env [''//span[contains(text(), 'vidhide - HD')]'']) (Some filemoon_hd_only)
        start_world)))
       = [''//span[contains(text(), 'filemoon - HD')]'']"
proof -
  let ?env = "page_env [''//span[contains(text(), 'vidhide - HD')]'']"
  have hf: "has_flags (given_flags (Some filemoon_hd_only))"
    by (simp add: has_flags_def given_flags_def filemoon_hd_only_def)
  have miss: "\<not> fst (click_option ?env ''//span[contains(text(), 'filemoon - HD')]'' start_world)"
    by (simp add: click_option_page_absent)
  have a0: "attempts (trace start_world) = []"
    by (simp add: start_world_def)
  note r = selector_restricted_order [OF hf, of ?env start_world]
  from r have four: "options_to_try filemoon_hd_only
      = [(''//span[contains(text(), 'filemoon - HD')]'', ''HD'')]"
    by blast
  from r miss have five:
    "fst (find_and_click_video_option ?env (Some filemoon_hd_only) start_world) = (False, False)
     \<and> attempts (trace (snd (find_and_click_video_option ?env (Some filemoon_hd_only) start_world)))
         = attempts (trace start_world) @ [''//span[contains(text(), 'filemoon - HD')]'']"
    by blast
  show ?thesis using hf miss four five a0 by (simp add: given_flags_def)
qed

text \<open>
  Claim C4, as amended. The second component of the selector's result is false in every
  execution: both \<open>return\<close> statements of the loop and the two failure returns give
  \<open>False\<close> for it, and no option of the two dictionaries belongs to the special provider.
\<close>

theorem selector_second_component_false:
  "snd (fst (find_and_click_video_option env source_flags_arg w)) = False"
  by (simp add: find_and_click_video_option_def Let_def try_options_second)

text \<open>
  Claim C4 as stated, that some execution returns true as the second component, fails.
\<close>

theorem selector_special_provider_counterexample:
  "\<not> (\<exists>env source_flags_arg w.
        snd (fst (find_and_click_video_option env source_flags_arg w)) = True)"
  by (simp add: find_and_click_video_option_def Let_def try_options_second)

subsection \<open>Embed/redirect resolver: the frames acted on\<close>



















subsection \<open>Embed/redirect resolver: the polling loop\<close>



lemma run_calls_Cons: "run_calls env (c # cs) w = run_calls env cs (do_call env c w)"
  by (simp add: run_calls_def)

lemma run_calls_Nil: "run_calls env [] w = w"
  by (simp add: run_calls_def)











subsection \<open>Embed/redirect resolver: one frame after another\<close>




subsection \<open>Resource harvester\<close>











subsection \<open>Playback verifier\<close>

lemma spawned_append: "spawned (xs @ ys) = spawned xs @ spawned ys"
  by (induction xs rule: spawned.induct) auto

lemma ask_user_spawned_snd:
  assumes "ask_user env w = Some y"
  shows "spawned (trace (snd y)) = spawned (trace w)"
proof (rule ask_user.raw_induct
    [where P = "\<lambda>env w y. spawned (trace (snd y)) = spawned (trace w)", OF _ assms])
  fix ask :: "env \<Rightarrow> world \<Rightarrow> ((exn + string) \<times> world) option"
    and env w y
  assume ih: "\<And>env' w' y'. ask env' w' = Some y' \<Longrightarrow>
      spawned (trace (snd y')) = spawned (trace w')"
    and body: "(case call_string env (Input vlc_question) w of
        (Inl e, w1) \<Rightarrow> Some (Inl e, w1)
      | (Inr answer, w1) \<Rightarrow>
          if strip (lower answer) = ''yes'' \<or> strip (lower answer) = ''no''
          then Some (Inr (strip (lower answer)), w1)
          else ask env w1) = Some y"
  let ?w1 = "do_call env (Input vlc_question) w"
  have s1: "spawned (trace ?w1) = spawned (trace w)" by (simp add: spawned_append)
  show "spawned (trace (snd y)) = spawned (trace w)"
  proof (cases "e_string env (trace w @ [Input vlc_question])")
    case (Inl e)
    with body s1 show ?thesis by (auto simp: call_string_def Let_def)
  next
    case (Inr answer)
    show ?thesis
    proof (cases "strip (lower answer) = ''yes'' \<or> strip (lower answer) = ''no''")
      case True
      with Inr body s1 show ?thesis by (auto simp: call_string_def Let_def)
    next
      case False
      with Inr body have "ask env ?w1 = Some y" by (auto simp: call_string_def Let_def)
      then have "spawned (trace (snd y)) = spawned (trace ?w1)" by (rule ih)
      with s1 show ?thesis by simp
    qed
  qed
qed

lemma ask_user_spawned:
  "ask_user env w = Some (r, w1) \<Longrightarrow> spawned (trace w1) = spawned (trace w)"
  using ask_user_spawned_snd [of env w "(r, w1)"] by simp

lemma find_vlc_spawned: "spawned (trace (snd (find_vlc env w))) = spawned (trace w)"
  by (simp add: find_vlc_def call_bool_def call_string_def Let_def spawned_append
      split: prod.splits sum.splits bool.splits)

lemma try_link_spawned:
  "try_link env auto_test link w = Some (res, w') \<Longrightarrow>
   spawned (trace w') = spawned (trace w) \<or> spawned (trace w') = spawned (trace w) @ [link]"
proof -
  assume t: "try_link env auto_test link w = Some (res, w')"
  obtain f w1 where f: "find_vlc env w = (f, w1)" by (cases "find_vlc env w")
  have s1: "spawned (trace w1) = spawned (trace w)"
    using find_vlc_spawned [of env w] f by simp
  show ?thesis
  proof (cases f)
    case (Inl e)
    with t f s1 show ?thesis by (simp add: try_link_def)
  next
    case (Inr found)
    show ?thesis
    proof (cases found)
      case None
      with Inr t f s1 show ?thesis by (simp add: try_link_def)
    next
      case (Some vlc_path)
      let ?w2 = "do_call env (Popen vlc_path link) w1"
      have s2: "spawned (trace ?w2) = spawned (trace w) @ [link]"
        using s1 by (simp add: spawned_append)
      show ?thesis
      proof (cases "e_process env (trace w1 @ [Popen vlc_path link])")
        case (Inl e)
        with Inr Some t f s2 show ?thesis
          by (simp add: try_link_def call_process_def Let_def)
      next
        case started: (Inr process)
        let ?w3 = "do_call env (Poll process) (do_call env (Sleep 5) ?w2)"
        have s3: "spawned (trace ?w3) = spawned (trace w) @ [link]"
          using s2 by (simp add: spawned_append)
        show ?thesis
        proof (cases "e_poll env (trace ?w3)")
          case (Some code)
          with Inr \<open>found = Some vlc_path\<close> started t f s3 show ?thesis
            by (auto simp: try_link_def call_process_def call_poll_def Let_def)
        next
          case None
          show ?thesis
          proof (cases auto_test)
            case True
            with None Inr \<open>found = Some vlc_path\<close> started t f s3 show ?thesis
              by (auto simp: try_link_def call_process_def call_poll_def call_done_def Let_def
                  spawned_append split: option.splits)
          next
            case False
            with None Inr \<open>found = Some vlc_path\<close> started t f
            have a: "(case ask_user env ?w3 of
                         None \<Rightarrow> None
                       | Some (Inl e, w4) \<Rightarrow> Some (Continue, w4)
                       | Some (Inr response, w4) \<Rightarrow>
                           if response = ''yes'' then Some (Return True, w4)
                           else
                             (case call_done env (Terminate process) w4 of
                                (Some e, w5) \<Rightarrow> Some (Continue, w5)
                              | (None, w5) \<Rightarrow> Some (Continue, do_call env (Sleep 2) w5)))
                 = Some (res, w')"
              by (simp add: try_link_def call_process_def call_poll_def Let_def)
            then obtain r4 w4 where ask: "ask_user env ?w3 = Some (r4, w4)"
              by (cases "ask_user env ?w3") auto
            have s4: "spawned (trace w4) = spawned (trace w) @ [link]"
              using ask_user_spawned [OF ask] s3 by simp
            from a ask s4 show ?thesis
              by (auto simp: call_done_def Let_def spawned_append
                  split: sum.splits if_splits option.splits)
          qed
        qed
      qed
    qed
  qed
qed

lemma try_links_spawned:
  "try_links env auto_test links w = Some (r, w') \<Longrightarrow>
   \<exists>ls. spawned (trace w') = spawned (trace w) @ ls \<and> set ls \<subseteq> set links"
proof (induction links arbitrary: w)
  case Nil
  then have "spawned (trace w') = spawned (trace w) @ [] \<and> set [] \<subseteq> set ([] :: string list)"
    by simp
  then show ?case by blast
next
  case (Cons link rest)
  from Cons.prems obtain res w1 where t: "try_link env auto_test link w = Some (res, w1)"
    by (cases "try_link env auto_test link w") auto
  from try_link_spawned [OF t] obtain l1 where
    l1: "spawned (trace w1) = spawned (trace w) @ l1" "set l1 \<subseteq> {link}"
    by (metis append_Nil2 empty_set empty_subsetI list.simps(15) subset_refl)
  show ?case
  proof (cases res)
    case (Return b)
    with Cons.prems t have "w' = w1" by simp
    with l1 have "spawned (trace w') = spawned (trace w) @ l1 \<and> set l1 \<subseteq> set (link # rest)"
      by auto
    then show ?thesis by blast
  next
    case Continue
    with Cons.prems t have "try_links env auto_test rest w1 = Some (r, w')" by simp
    from Cons.IH [OF this] obtain ls where
      ls: "spawned (trace w') = spawned (trace w1) @ ls" "set ls \<subseteq> set rest"
      by blast
    with l1 have "spawned (trace w') = spawned (trace w) @ (l1 @ ls)
        \<and> set (l1 @ ls) \<subseteq> set (link # rest)"
      by auto
    then show ?thesis by blast
  qed
qed

text \<open>
  Claim C7. The links of the excluded domains are filtered out before the loop over the
  candidates, in both modes. For a candidate list that holds only such links the verifier
  returns \<open>False\<close> (overall failure) and the world is as it was: no call was made, so no
  player was started. In every run that returns, each link the player was started on is a
  candidate that is not excluded.
\<close>

theorem verifier_excluded_links:
  "((\<forall>link\<in>set video_links. excluded_link link) \<longrightarrow>
      try_play_in_vlc env video_links auto_test w = Some (False, w))
   \<and> (\<forall>r w'. try_play_in_vlc env video_links auto_test w = Some (r, w') \<longrightarrow>
        (\<exists>ls. spawned (trace w') = spawned (trace w) @ ls
           \<and> (\<forall>link\<in>set ls. link \<in> set video_links \<and> \<not> excluded_link link)))"
proof (intro conjI allI impI)
  assume "\<forall>link\<in>set video_links. excluded_link link"
  then have "filter (\<lambda>link. \<not> excluded_link link) video_links = []" by simp
  then show "try_play_in_vlc env video_links auto_test w = Some (False, w)"
    by (simp add: try_play_in_vlc_def)
next
  fix r w'
  assume t: "try_play_in_vlc env video_links auto_test w = Some (r, w')"
  let ?filtered = "filter (\<lambda>link. \<not> excluded_link link) video_links"
  show "\<exists>ls. spawned (trace w') = spawned (trace w) @ ls
           \<and> (\<forall>link\<in>set ls. link \<in> set video_links \<and> \<not> excluded_link link)"
  proof (cases "video_links = [] \<or> ?filtered = []")
    case True
    with t have "w' = w" by (auto simp: try_play_in_vlc_def Let_def split: if_splits)
    then have "spawned (trace w') = spawned (trace w) @ []
        \<and> (\<forall>link\<in>set []. link \<in> set video_links \<and> \<not> excluded_link link)"
      by simp
    then show ?thesis by blast
  next
    case False
    with t have "try_links env auto_test ?filtered w = Some (r, w')"
      by (auto simp: try_play_in_vlc_def Let_def)
    from try_links_spawned [OF this] obtain ls where
      ls: "spawned (trace w') = spawned (trace w) @ ls" "set ls \<subseteq> set ?filtered"
      by blast
    then have "\<forall>link\<in>set ls. link \<in> set video_links \<and> \<not> excluded_link link" by auto
    with ls show ?thesis by blast
  qed
qed

lemmas verifier_eval =
  try_play_in_vlc_def try_link_def find_vlc_def call_bool_def call_process_def call_poll_def
  call_done_def Let_def do_call_def excluded_link_def player_works_env_def quiet_env_def
  start_world_def

theorem verifier_excluded_links_witness:
  "excluded_link ''https://swiftplayers.com/stream/abc/master.m3u8''
   \<and> excluded_link ''https://cdn.jonathansociallike.com/x/index.m3u8''
   \<and> try_play_in_vlc player_works_env
        [''https://swiftplayers.com/stream/abc/master.m3u8'',
         ''https://cdn.jonathansociallike.com/x/index.m3u8''] True start_world
      = Some (False, start_world)
   \<and> spawned (trace start_world) = []
   \<and> (\<exists>w'. try_play_in_vlc player_works_env
        [''https://swiftplayers.com/stream/abc/master.m3u8'', ''https://good.example/index.m3u8'']
        True start_world = Some (True, w')
       \<and> spawned (trace w') = [''https://good.example/index.m3u8''])"
proof -
  let ?a = "''https://swiftplayers.com/stream/abc/master.m3u8''"
  let ?b = "''https://cdn.jonathansociallike.com/x/index.m3u8''"
  have ex: "excluded_link ?a" "excluded_link ?b"
    by (simp_all add: excluded_link_def)
  then have "\<forall>link\<in>set [?a, ?b]. excluded_link link" by simp
  then have none: "try_play_in_vlc player_works_env [?a, ?b] True start_world
      = Some (False, start_world)"
    using verifier_excluded_links [of "[?a, ?b]" player_works_env True start_world] by blast
  have s0: "spawned (trace start_world) = []" by (simp add: start_world_def)
  have "\<exists>w'. try_play_in_vlc player_works_env [?a, ''https://good.example/index.m3u8'']
        True start_world = Some (True, w')
       \<and> spawned (trace w') = [''https://good.example/index.m3u8'']"
    by (simp add: verifier_eval)
  with ex none s0 show ?thesis by simp
qed

subsection \<open>Manifest-entry formatter\<close>

lemma py_replace_single: "py_replace [q] [] s = filter (\<lambda>c. c \<noteq> q) s"
  by (induction s) auto

lemma filter_py_replace_double:
  "filter (\<lambda>c. c \<noteq> q) (py_replace [q, q] [] s) = filter (\<lambda>c. c \<noteq> q) s"
proof (induction "[q, q]" "[] :: string" s rule: py_replace.induct)
  case 1
  then show ?case by simp
next
  case (2 c cs)
  show ?case
  proof (cases "startswith (c # cs) [q, q]")
    case True
    then obtain rest where r: "c # cs = [q, q] @ rest" by (auto simp: startswith_iff)
    then have d: "drop (length [q, q]) (c # cs) = rest" by simp
    have "filter (\<lambda>c. c \<noteq> q) (py_replace [q, q] [] (drop (length [q, q]) (c # cs)))
        = filter (\<lambda>c. c \<noteq> q) (drop (length [q, q]) (c # cs))"
      using True by (intro "2.hyps"(1)) simp
    then have "filter (\<lambda>c. c \<noteq> q) (py_replace [q, q] [] rest) = filter (\<lambda>c. c \<noteq> q) rest"
      using d by simp
    moreover have "py_replace [q, q] [] (c # cs) = py_replace [q, q] [] rest"
      using r by simp
    moreover have "filter (\<lambda>c. c \<noteq> q) (c # cs) = filter (\<lambda>c. c \<noteq> q) rest"
      using r by simp
    ultimately show ?thesis by simp
  next
    case False
    then have "filter (\<lambda>c. c \<noteq> q) (py_replace [q, q] [] cs) = filter (\<lambda>c. c \<noteq> q) cs"
      by (intro "2.hyps"(2)) simp
    moreover have "py_replace [q, q] [] (c # cs) = c # py_replace [q, q] [] cs"
      using False by auto
    ultimately show ?thesis by simp
  qed
qed

lemma clean_text_filter: "clean_text s = filter (\<lambda>c. c \<noteq> CHR 0x22) (strip s)"
  by (simp add: clean_text_def py_replace_single filter_py_replace_double)

text \<open>
  Claim C10. When the formatter produces an entry, the title and the description it embeds
  are the stripped title and description with every double-quote character deleted (nothing
  is put in its place), so neither value contains a double quote, whatever was scraped.
\<close>

theorem format_roku_xml_deletes_quotes:
  "format_roku_xml env (Some details) video_links w = Some (Some xml, w') \<Longrightarrow>
   (\<exists>poster video_url genre_text year runtime.
      xml = roku_item (clean_text (title details)) (clean_text (description details))
              poster video_url genre_text year runtime)
   \<and> clean_text (title details) = filter (\<lambda>c. c \<noteq> CHR 0x22) (strip (title details))
   \<and> clean_text (description details)
       = filter (\<lambda>c. c \<noteq> CHR 0x22) (strip (description details))
   \<and> CHR 0x22 \<notin> set (clean_text (title details))
   \<and> CHR 0x22 \<notin> set (clean_text (description details))"
proof -
  assume f: "format_roku_xml env (Some details) video_links w = Some (Some xml, w')"
  have shape: "\<exists>poster video_url genre_text year runtime.
      xml = roku_item (clean_text (title details)) (clean_text (description details))
              poster video_url genre_text year runtime"
    using f
    by (auto simp: format_roku_xml_def Let_def split: if_splits option.splits prod.splits)
      blast+
  have t: "clean_text (title details) = filter (\<lambda>c. c \<noteq> CHR 0x22) (strip (title details))"
    by (rule clean_text_filter)
  have d: "clean_text (description details)
      = filter (\<lambda>c. c \<noteq> CHR 0x22) (strip (description details))"
    by (rule clean_text_filter)
  have "CHR 0x22 \<notin> set (clean_text (title details))" by (simp add: t)
  moreover have "CHR 0x22 \<notin> set (clean_text (description details))" by (simp add: d)
  ultimately show ?thesis using shape t d by simp
qed

lemma clean_quoted_title: "clean_text (title quoted_details) = ''The Best Movie''"
  by (simp add: clean_text_filter strip_def is_space_def quoted_details_def)

lemma clean_quoted_description:
  "clean_text (description quoted_details) = ''He said no and yes.''"
  by (simp add: clean_text_filter strip_def is_space_def quoted_details_def)

theorem format_roku_xml_deletes_quotes_witness:
  "(\<exists>w'. format_roku_xml player_works_env (Some quoted_details)
        [''https://good.example/index.m3u8''] start_world
      = Some (Some (roku_item ''The Best Movie'' ''He said no and yes.''
           ''https://img.example/p.jpg'' ''https://good.example/index.m3u8''
           ''Drama, Crime'' ''2023'' ''1h 41m''), w'))
   \<and> CHR 0x22 \<in> set (title quoted_details)
   \<and> CHR 0x22 \<notin> set (clean_text (title quoted_details))
   \<and> CHR 0x22 \<notin> set (clean_text (description quoted_details))"
proof -
  have run: "\<exists>w'. format_roku_xml player_works_env (Some quoted_details)
        [''https://good.example/index.m3u8''] start_world
      = Some (Some (roku_item (clean_text (title quoted_details))
           (clean_text (description quoted_details))
           ''https://img.example/p.jpg'' ''https://good.example/index.m3u8''
           ''Drama, Crime'' ''2023'' ''1h 41m''), w')"
    by (simp add: format_roku_xml_def verifier_eval py_split_def is_space_def
        quoted_details_def)
  then obtain w' where r: "format_roku_xml player_works_env (Some quoted_details)
        [''https://good.example/index.m3u8''] start_world
      = Some (Some (roku_item (clean_text (title quoted_details))
           (clean_text (description quoted_details))
           ''https://img.example/p.jpg'' ''https://good.example/index.m3u8''
           ''Drama, Crime'' ''2023'' ''1h 41m''), w')"
    by blast
  have q: "CHR 0x22 \<notin> set (clean_text (title quoted_details))
      \<and> CHR 0x22 \<notin> set (clean_text (description quoted_details))"
    using format_roku_xml_deletes_quotes [OF r] by blast
  have i: "CHR 0x22 \<in> set (title quoted_details)"
    by (simp add: quoted_details_def)
  from run q i show ?thesis
    by (simp add: clean_quoted_title clean_quoted_description)
qed

subsection \<open>Batch run: the history guard\<close>









end
